theory Spec2Isabelle
  imports Main "HOL-Library.Word"
begin

section \<open>Configuration constants (Config.h)\<close>

text \<open>
  The target is a 32-bit controller: \<^verbatim>\<open>unsigned long\<close> is a 32-bit word whose
  arithmetic wraps around. Counters of type \<^verbatim>\<open>int\<close> are modelled as \<^typ>\<open>int\<close>;
  the invariants below keep them far away from the 32-bit limits.
  An Arduino \<^verbatim>\<open>String\<close> and a NUL-terminated \<^verbatim>\<open>char\<close> buffer are both
  modelled by the text they hold, a \<^typ>\<open>string\<close> without embedded NUL.
\<close>

type_synonym ulong = "32 word"

definition TOTAL_SLOTS :: nat where
  "TOTAL_SLOTS = 10"

definition MAX_RFID_CARDS :: nat where
  "MAX_RFID_CARDS = 50"

definition EEPROM_MAGIC :: "32 word" where
  "EEPROM_MAGIC = 0xABCD1234"

definition SERVO_CLOSED_ANGLE :: int where
  "SERVO_CLOSED_ANGLE = 0"

definition SERVO_OPEN_ANGLE :: int where
  "SERVO_OPEN_ANGLE = 90"

definition GATE_CLOSE_DELAY :: ulong where
  "GATE_CLOSE_DELAY = 2000"

definition CARD_SCAN_TIMEOUT :: ulong where
  "CARD_SCAN_TIMEOUT = 10000"

definition DISPLAY_MESSAGE_DURATION :: ulong where
  "DISPLAY_MESSAGE_DURATION = 2000"

text \<open>
  \<^verbatim>\<open>String::toCharArray(buf, bufsize)\<close> of the Arduino core copies at most
  \<^verbatim>\<open>bufsize - 1\<close> characters and terminates the buffer.
\<close>

definition toCharArray :: "string \<Rightarrow> nat \<Rightarrow> string" where
  "toCharArray str bufsize = take (bufsize - 1) str"


section \<open>SlotManager (SlotManager.h, SlotManager.cpp)\<close>

record ParkingSlot =
  occupied :: bool
  cardUID :: string
  entryTime :: ulong
  slotNumber :: int

record SlotManager =
  sm_slots :: "ParkingSlot list"
  sm_availableSlots :: int
  sm_initialized :: bool

text \<open>The body of the loop of \<^verbatim>\<open>begin\<close> for index \<open>i\<close>.\<close>

definition begin_slot :: "nat \<Rightarrow> ParkingSlot" where
  "begin_slot i = \<lparr>occupied = False, cardUID = [], entryTime = 0, slotNumber = int i + 1\<rparr>"

definition begin_sm :: "SlotManager \<Rightarrow> bool \<times> SlotManager" where
  "begin_sm s =
     (True, s\<lparr>sm_slots := map begin_slot [0..<TOTAL_SLOTS],
              sm_availableSlots := int TOTAL_SLOTS,
              sm_initialized := True\<rparr>)"

text \<open>The scan of \<^verbatim>\<open>findSlotByCard\<close>: the first occupied slot whose holder equals the UID.\<close>

fun findSlotByCard_scan :: "ParkingSlot list \<Rightarrow> string \<Rightarrow> int" where
  "findSlotByCard_scan [] u = - 1"
| "findSlotByCard_scan (p # ps) u =
     (if occupied p \<and> u = cardUID p then slotNumber p else findSlotByCard_scan ps u)"

definition findSlotByCard :: "SlotManager \<Rightarrow> string \<Rightarrow> int" where
  "findSlotByCard s u = findSlotByCard_scan (sm_slots s) u"

text \<open>The scan of \<^verbatim>\<open>findAvailableSlot\<close>, from index \<open>i\<close> on: the index of the first free slot.\<close>

fun findAvailableSlot_scan :: "nat \<Rightarrow> ParkingSlot list \<Rightarrow> int" where
  "findAvailableSlot_scan i [] = - 1"
| "findAvailableSlot_scan i (p # ps) =
     (if \<not> occupied p then int i else findAvailableSlot_scan (Suc i) ps)"

definition findAvailableSlot :: "SlotManager \<Rightarrow> int" where
  "findAvailableSlot s = findAvailableSlot_scan 0 (sm_slots s)"

definition isValidSlotNumber :: "int \<Rightarrow> bool" where
  "isValidSlotNumber n \<longleftrightarrow> 1 \<le> n \<and> n \<le> int TOTAL_SLOTS"

definition slotNumberToIndex :: "int \<Rightarrow> int" where
  "slotNumberToIndex n = n - 1"

text \<open>
  \<^verbatim>\<open>allocateSlot(cardUID, entryTime)\<close>; \<open>millis\<close> is the reading of the millisecond
  clock during the call. The result is the returned slot number and the new state.
\<close>

definition allocateSlot :: "string \<Rightarrow> ulong \<Rightarrow> ulong \<Rightarrow> SlotManager \<Rightarrow> int \<times> SlotManager" where
  "allocateSlot u entry millis s =
     (if \<not> sm_initialized s then (- 1, s)
      else
        let existingSlot = findSlotByCard s u in
        if existingSlot \<noteq> - 1 then (existingSlot, s)
        else
          let slotIndex = findAvailableSlot s in
          if slotIndex = - 1 then (- 1, s)
          else
            let i = nat slotIndex;
                p = (sm_slots s ! i)
                      \<lparr>occupied := True,
                       cardUID := toCharArray u 20,
                       entryTime := (if entry = 0 then millis div 1000 else entry)\<rparr>
            in (slotNumber p,
                s\<lparr>sm_slots := (sm_slots s)[i := p],
                  sm_availableSlots := sm_availableSlots s - 1\<rparr>))"

text \<open>\<^verbatim>\<open>releaseSlot(slotNumber)\<close>: the returned duration and the new state.\<close>

definition releaseSlot :: "int \<Rightarrow> ulong \<Rightarrow> SlotManager \<Rightarrow> ulong \<times> SlotManager" where
  "releaseSlot n millis s =
     (if \<not> sm_initialized s \<or> \<not> isValidSlotNumber n then (0, s)
      else
        let index = nat (slotNumberToIndex n) in
        if \<not> occupied (sm_slots s ! index) then (0, s)
        else
          let duration = millis div 1000 - entryTime (sm_slots s ! index);
              p = (sm_slots s ! index)\<lparr>occupied := False, cardUID := [], entryTime := 0\<rparr>
          in (duration,
              s\<lparr>sm_slots := (sm_slots s)[index := p],
                sm_availableSlots := sm_availableSlots s + 1\<rparr>))"

text \<open>
  \<^verbatim>\<open>releaseSlotByCard(cardUID, slotNumber&)\<close>: the returned duration, the value left
  in the output parameter, and the new state.
\<close>

definition releaseSlotByCard :: "string \<Rightarrow> ulong \<Rightarrow> SlotManager \<Rightarrow> ulong \<times> int \<times> SlotManager" where
  "releaseSlotByCard u millis s =
     (let n = findSlotByCard s u in
      if n = - 1 then (0, n, s)
      else (fst (releaseSlot n millis s), n, snd (releaseSlot n millis s)))"

definition isSlotOccupied :: "SlotManager \<Rightarrow> int \<Rightarrow> bool" where
  "isSlotOccupied s n =
     (if \<not> isValidSlotNumber n then False
      else occupied (sm_slots s ! nat (slotNumberToIndex n)))"

definition getAvailableSlots :: "SlotManager \<Rightarrow> int" where
  "getAvailableSlots s = sm_availableSlots s"

definition clearAllSlots :: "SlotManager \<Rightarrow> SlotManager" where
  "clearAllSlots s =
     s\<lparr>sm_slots := map (\<lambda>p. p\<lparr>occupied := False, cardUID := [], entryTime := 0\<rparr>) (sm_slots s),
       sm_availableSlots := int TOTAL_SLOTS\<rparr>"

subsection \<open>Sequences of public operations\<close>

datatype slot_op =
    AllocateSlot string ulong ulong
  | ReleaseSlot int ulong
  | ReleaseSlotByCard string ulong
  | ClearAllSlots

fun apply_slot_op :: "slot_op \<Rightarrow> SlotManager \<Rightarrow> SlotManager" where
  "apply_slot_op (AllocateSlot u entry millis) s = snd (allocateSlot u entry millis s)"
| "apply_slot_op (ReleaseSlot n millis) s = snd (releaseSlot n millis s)"
| "apply_slot_op (ReleaseSlotByCard u millis) s = snd (snd (releaseSlotByCard u millis s))"
| "apply_slot_op ClearAllSlots s = clearAllSlots s"

fun run_slot_ops :: "slot_op list \<Rightarrow> SlotManager \<Rightarrow> SlotManager" where
  "run_slot_ops [] s = s"
| "run_slot_ops (a # as) s = run_slot_ops as (apply_slot_op a s)"

text \<open>The number of slots whose occupied flag is false, and of those whose flag is true.\<close>

definition freeCount :: "SlotManager \<Rightarrow> nat" where
  "freeCount s = length (filter (\<lambda>p. \<not> occupied p) (sm_slots s))"

definition occupiedCount :: "SlotManager \<Rightarrow> nat" where
  "occupiedCount s = length (filter occupied (sm_slots s))"

text \<open>
  The state that \<^verbatim>\<open>begin\<close> establishes and every public operation keeps: the
  manager is initialised, the array has its \<^const>\<open>TOTAL_SLOTS\<close> entries, slot numbers
  are the 1-based indices, and the cached counter is the number of free slots.
\<close>

definition numbered :: "ParkingSlot list \<Rightarrow> bool" where
  "numbered ps \<longleftrightarrow> map slotNumber ps = map (\<lambda>i. int i + 1) [0..<length ps]"

definition slots_ok :: "SlotManager \<Rightarrow> bool" where
  "slots_ok s \<longleftrightarrow>
     sm_initialized s \<and> length (sm_slots s) = TOTAL_SLOTS \<and> numbered (sm_slots s) \<and>
     sm_availableSlots s = int (freeCount s)"



section \<open>GateController (GateController.h, GateController.cpp)\<close>

datatype GateState =
    STATE_IDLE
  | STATE_WAITING_CARD
  | STATE_BARRIER_OPEN
  | STATE_CLOSING_DELAY

datatype GateEvent =
    EVENT_NONE
  | EVENT_VEHICLE_DETECTED
  | EVENT_VEHICLE_LEFT
  | EVENT_CARD_SCANNED
  | EVENT_CARD_DENIED
  | EVENT_PARKING_FULL
  | EVENT_VEHICLE_PASSED
  | EVENT_TIMEOUT

text \<open>
  \<^verbatim>\<open>GateEventData\<close>. A field that the code leaves unassigned before it fires the
  event is \<^const>\<open>None\<close>; a default-constructed \<^verbatim>\<open>String\<close> is empty.
\<close>

record GateEventData =
  event :: GateEvent
  ev_cardUID :: string
  ev_slotNumber :: "int option"
  ev_duration :: "ulong option"

text \<open>
  What a call does to the outside, in order: a call of the registered event callback,
  a write of an angle to the servo, a blocking delay.
\<close>

datatype effect =
    Callback GateEventData
  | ServoWrite int
  | Delay ulong

text \<open>
  The members that the state machine reads and writes. \<open>gc_eventCallback\<close> tells whether
  a callback is registered (the pointer is not null).
\<close>

record GateController =
  gc_state :: GateState
  gc_lastScannedCard :: string
  gc_stateStartTime :: ulong
  gc_eventCallback :: bool
  gc_vehicleWasDetected :: bool
  gc_initialized :: bool

definition setServoAngle :: "int \<Rightarrow> effect list" where
  "setServoAngle angle = [ServoWrite angle]"

definition setState :: "GateState \<Rightarrow> ulong \<Rightarrow> GateController \<Rightarrow> GateController" where
  "setState newState millis g = g\<lparr>gc_state := newState, gc_stateStartTime := millis\<rparr>"

definition fireEvent :: "GateController \<Rightarrow> GateEventData \<Rightarrow> effect list" where
  "fireEvent g eventData = (if gc_eventCallback g then [Callback eventData] else [])"

definition getStateElapsedTime :: "GateController \<Rightarrow> ulong \<Rightarrow> ulong" where
  "getStateElapsedTime g millis = millis - gc_stateStartTime g"

definition closeGate :: "effect list" where
  "closeGate = setServoAngle SERVO_CLOSED_ANGLE"

definition openGate :: "ulong \<Rightarrow> GateController \<Rightarrow> GateController \<times> effect list" where
  "openGate millis g = (setState STATE_BARRIER_OPEN millis g, setServoAngle SERVO_OPEN_ANGLE)"

text \<open>The event record that \<^verbatim>\<open>update\<close> builds: only the kind is assigned.\<close>

definition updateEvent :: "GateEvent \<Rightarrow> GateEventData" where
  "updateEvent e = \<lparr>event = e, ev_cardUID = [], ev_slotNumber = None, ev_duration = None\<rparr>"

text \<open>
  \<^verbatim>\<open>update()\<close>. \<open>vehicleDetected\<close> is the reading of the sensor and \<open>millis\<close> the
  reading of the millisecond clock; the clock does not advance within one call.
  The result is the new state and the effects in the order they happen.
\<close>

definition update :: "bool \<Rightarrow> ulong \<Rightarrow> GateController \<Rightarrow> GateController \<times> effect list" where
  "update vehicleDetected millis g =
     (if \<not> gc_initialized g then (g, [])
      else
        let (g', out) =
          (case gc_state g of
             STATE_IDLE \<Rightarrow>
               if vehicleDetected \<and> \<not> gc_vehicleWasDetected g
               then (setState STATE_WAITING_CARD millis g,
                     fireEvent g (updateEvent EVENT_VEHICLE_DETECTED))
               else (g, [])
           | STATE_WAITING_CARD \<Rightarrow>
               let (g1, out1) =
                     (if \<not> vehicleDetected \<and> gc_vehicleWasDetected g
                      then (setState STATE_IDLE millis g,
                            fireEvent g (updateEvent EVENT_VEHICLE_LEFT))
                      else (g, []));
                   (g2, out2) =
                     (if getStateElapsedTime g1 millis > CARD_SCAN_TIMEOUT
                      then (setState STATE_IDLE millis g1,
                            fireEvent g1 (updateEvent EVENT_TIMEOUT))
                      else (g1, []))
               in (g2, out1 @ out2)
           | STATE_BARRIER_OPEN \<Rightarrow>
               if \<not> vehicleDetected \<and> gc_vehicleWasDetected g
               then (setState STATE_CLOSING_DELAY millis g,
                     fireEvent g (updateEvent EVENT_VEHICLE_PASSED))
               else (g, [])
           | STATE_CLOSING_DELAY \<Rightarrow>
               if getStateElapsedTime g millis \<ge> GATE_CLOSE_DELAY
               then (setState STATE_IDLE millis g, closeGate)
               else (g, []))
        in (g'\<lparr>gc_vehicleWasDetected := vehicleDetected\<rparr>, out))"

text \<open>
  \<^verbatim>\<open>handleCardScanned(cardUID, authorized, slotNumber, parkingFull)\<close>. After the
  blocking delay of a rejection the clock reads \<open>millis + DISPLAY_MESSAGE_DURATION\<close>.
\<close>

definition handleCardScanned ::
    "string \<Rightarrow> bool \<Rightarrow> int \<Rightarrow> bool \<Rightarrow> ulong \<Rightarrow> GateController \<Rightarrow> GateController \<times> effect list" where
  "handleCardScanned u authorized slotNo parkingFull millis g =
     (if gc_state g \<noteq> STATE_WAITING_CARD then (g, [])
      else
        let g1 = g\<lparr>gc_lastScannedCard := u\<rparr>;
            eventData = \<lambda>e. \<lparr>event = e, ev_cardUID = u, ev_slotNumber = Some slotNo,
                              ev_duration = None\<rparr>
        in
          if \<not> authorized then
            (setState STATE_IDLE (millis + DISPLAY_MESSAGE_DURATION) g1,
             fireEvent g1 (eventData EVENT_CARD_DENIED) @ [Delay DISPLAY_MESSAGE_DURATION])
          else if parkingFull then
            (setState STATE_IDLE (millis + DISPLAY_MESSAGE_DURATION) g1,
             fireEvent g1 (eventData EVENT_PARKING_FULL) @ [Delay DISPLAY_MESSAGE_DURATION])
          else
            (fst (openGate millis g1),
             fireEvent g1 (eventData EVENT_CARD_SCANNED) @ snd (openGate millis g1)))"

text \<open>A run of ticks: one sensor reading and one clock reading per call of \<^verbatim>\<open>update\<close>.\<close>

fun updates :: "(bool \<times> ulong) list \<Rightarrow> GateController \<Rightarrow> GateController \<times> effect list" where
  "updates [] g = (g, [])"
| "updates ((v, t) # ticks) g =
     (let (g1, out1) = update v t g; (g2, out2) = updates ticks g1 in (g2, out1 @ out2))"

text \<open>The events delivered to the callback among the effects of a call.\<close>

fun events :: "effect list \<Rightarrow> GateEvent list" where
  "events [] = []"
| "events (Callback d # es) = event d # events es"
| "events (e # es) = events es"

fun servoWrites :: "effect list \<Rightarrow> int list" where
  "servoWrites [] = []"
| "servoWrites (ServoWrite a # es) = a # servoWrites es"
| "servoWrites (e # es) = servoWrites es"


section \<open>RFIDManager (RFIDManager.h, RFIDManager.cpp)\<close>

record RFIDCard =
  uid :: string
  isActive :: bool
  accessLevel :: int
  ownerName :: string

text \<open>
  \<^verbatim>\<open>EEPROMData\<close>, the layout of the persisted snapshot. The tag is compared as an
  unsigned 32-bit value; the count is the signed value of the stored \<^verbatim>\<open>int\<close>.
\<close>

record EEPROMData =
  magic :: "32 word"
  numCards :: int
  cards :: "RFIDCard list"

record RFIDManager =
  rf_authorizedCards :: "RFIDCard list"
  rf_numCards :: int
  rf_initialized :: bool

definition ACCESS_REGULAR :: int where
  "ACCESS_REGULAR = 0"

definition ACCESS_ADMIN :: int where
  "ACCESS_ADMIN = 1"

definition DEFAULT_CARD_COUNT :: int where
  "DEFAULT_CARD_COUNT = 5"

definition DEFAULT_CARD_1 :: RFIDCard where
  "DEFAULT_CARD_1 = \<lparr>uid = ''0A1B2C3D'', isActive = True, accessLevel = ACCESS_ADMIN, ownerName = ''Admin''\<rparr>"

definition DEFAULT_CARD_2 :: RFIDCard where
  "DEFAULT_CARD_2 = \<lparr>uid = ''1A2B3C4D'', isActive = True, accessLevel = ACCESS_REGULAR, ownerName = ''User1''\<rparr>"

definition DEFAULT_CARD_3 :: RFIDCard where
  "DEFAULT_CARD_3 = \<lparr>uid = ''2A3B4C5D'', isActive = True, accessLevel = ACCESS_REGULAR, ownerName = ''User2''\<rparr>"

definition DEFAULT_CARD_4 :: RFIDCard where
  "DEFAULT_CARD_4 = \<lparr>uid = ''83DF0756'', isActive = True, accessLevel = ACCESS_REGULAR, ownerName = ''Card1''\<rparr>"

definition DEFAULT_CARD_5 :: RFIDCard where
  "DEFAULT_CARD_5 = \<lparr>uid = ''739E3F13'', isActive = True, accessLevel = ACCESS_REGULAR, ownerName = ''Card2''\<rparr>"

definition default_cards :: "RFIDCard list" where
  "default_cards = [DEFAULT_CARD_1, DEFAULT_CARD_2, DEFAULT_CARD_3, DEFAULT_CARD_4, DEFAULT_CARD_5]"

text \<open>The records that the loops over \<^verbatim>\<open>i < _numCards\<close> visit, in order.\<close>

definition whitelist :: "RFIDManager \<Rightarrow> RFIDCard list" where
  "whitelist s = take (nat (rf_numCards s)) (rf_authorizedCards s)"

text \<open>
  The loop \<^verbatim>\<open>for (i = 0; i < n; i++) dst[i] = src[i]\<close> on two arrays of the same size.
\<close>

definition copy_cards :: "nat \<Rightarrow> RFIDCard list \<Rightarrow> RFIDCard list \<Rightarrow> RFIDCard list" where
  "copy_cards n src dst = take n src @ drop n dst"

text \<open>
  \<^verbatim>\<open>isAuthorized(uid, accessLevel&)\<close>: the returned flag, and the access level when
  the call assigns the output parameter.
\<close>

fun isAuthorized_scan :: "RFIDCard list \<Rightarrow> string \<Rightarrow> bool \<times> int option" where
  "isAuthorized_scan [] u = (False, None)"
| "isAuthorized_scan (c # cs) u =
     (if u = uid c \<and> isActive c then (True, Some (accessLevel c)) else isAuthorized_scan cs u)"

definition isAuthorized :: "RFIDManager \<Rightarrow> string \<Rightarrow> bool \<times> int option" where
  "isAuthorized s u = isAuthorized_scan (whitelist s) u"

fun findCardIndex_scan :: "nat \<Rightarrow> RFIDCard list \<Rightarrow> string \<Rightarrow> int" where
  "findCardIndex_scan i [] u = - 1"
| "findCardIndex_scan i (c # cs) u =
     (if u = uid c then int i else findCardIndex_scan (Suc i) cs u)"

definition findCardIndex :: "RFIDManager \<Rightarrow> string \<Rightarrow> int" where
  "findCardIndex s u = findCardIndex_scan 0 (whitelist s) u"

text \<open>
  The EEPROM library keeps an image of the store in memory: \<^verbatim>\<open>get\<close> reads the image,
  \<^verbatim>\<open>put\<close> writes it, \<^verbatim>\<open>commit\<close> flushes it and reports success. The image is the
  \<^typ>\<open>EEPROMData\<close> passed through the calls; \<open>local\<close> is the uninitialised local
  record of \<^verbatim>\<open>saveToEEPROM\<close> and \<open>commit\<close> the result of the flush.
\<close>

definition saveToEEPROM :: "EEPROMData \<Rightarrow> bool \<Rightarrow> RFIDManager \<Rightarrow> bool \<times> EEPROMData" where
  "saveToEEPROM local commit s =
     (commit,
      local\<lparr>magic := EEPROM_MAGIC,
            numCards := rf_numCards s,
            cards := copy_cards (nat (rf_numCards s)) (rf_authorizedCards s) (cards local)\<rparr>)"

definition loadFromEEPROM :: "EEPROMData \<Rightarrow> RFIDManager \<Rightarrow> bool \<times> RFIDManager" where
  "loadFromEEPROM data s =
     (if magic data = EEPROM_MAGIC \<and> numCards data \<ge> 0 \<and> numCards data \<le> int MAX_RFID_CARDS
      then (True,
            s\<lparr>rf_numCards := numCards data,
              rf_authorizedCards :=
                copy_cards (nat (numCards data)) (cards data) (rf_authorizedCards s)\<rparr>)
      else (False, s))"

definition resetToDefaults ::
    "EEPROMData \<Rightarrow> bool \<Rightarrow> RFIDManager \<Rightarrow> RFIDManager \<times> EEPROMData" where
  "resetToDefaults local commit s =
     (let s' = s\<lparr>rf_numCards := DEFAULT_CARD_COUNT,
                 rf_authorizedCards :=
                   (rf_authorizedCards s)
                     [0 := DEFAULT_CARD_1, 1 := DEFAULT_CARD_2, 2 := DEFAULT_CARD_3,
                      3 := DEFAULT_CARD_4, 4 := DEFAULT_CARD_5]\<rparr>
      in (s', snd (saveToEEPROM local commit s')))"

definition initializeEEPROM ::
    "EEPROMData \<Rightarrow> bool \<Rightarrow> EEPROMData \<Rightarrow> RFIDManager \<Rightarrow> RFIDManager \<times> EEPROMData" where
  "initializeEEPROM local commit ee s =
     (if magic ee \<noteq> EEPROM_MAGIC then resetToDefaults local commit s else (s, ee))"

text \<open>
  \<^verbatim>\<open>begin()\<close>: the returned flag, the new state and the EEPROM image. The calls that
  set up the bus and the readers touch neither.
\<close>

definition begin_rf ::
    "EEPROMData \<Rightarrow> bool \<Rightarrow> EEPROMData \<Rightarrow> RFIDManager \<Rightarrow> bool \<times> RFIDManager \<times> EEPROMData" where
  "begin_rf local commit ee s =
     (let (s1, ee1) = initializeEEPROM local commit ee s;
          (loaded, s2) = loadFromEEPROM ee1 s1
      in (loaded, s2\<lparr>rf_initialized := True\<rparr>, ee1))"

definition addCard ::
    "string \<Rightarrow> string \<Rightarrow> int \<Rightarrow> EEPROMData \<Rightarrow> bool \<Rightarrow> EEPROMData \<Rightarrow> RFIDManager
       \<Rightarrow> bool \<times> RFIDManager \<times> EEPROMData" where
  "addCard u owner level local commit ee s =
     (if findCardIndex s u \<noteq> - 1 then (False, s, ee)
      else if rf_numCards s \<ge> int MAX_RFID_CARDS then (False, s, ee)
      else
        let n = nat (rf_numCards s);
            c = (rf_authorizedCards s ! n)
                  \<lparr>uid := toCharArray u 20, ownerName := toCharArray owner 32,
                   accessLevel := level, isActive := True\<rparr>;
            s' = s\<lparr>rf_authorizedCards := (rf_authorizedCards s)[n := c],
                   rf_numCards := rf_numCards s + 1\<rparr>
        in (fst (saveToEEPROM local commit s'), s', snd (saveToEEPROM local commit s')))"

text \<open>The shifting loop of \<^verbatim>\<open>removeCard\<close>: entry \<open>i\<close> takes the value of entry \<open>i + 1\<close>.\<close>

definition shift_cards :: "nat \<Rightarrow> nat \<Rightarrow> RFIDCard list \<Rightarrow> RFIDCard list" where
  "shift_cards index n a = fold (\<lambda>i a. a[i := a ! (i + 1)]) [index..<n - 1] a"

definition removeCard ::
    "string \<Rightarrow> EEPROMData \<Rightarrow> bool \<Rightarrow> EEPROMData \<Rightarrow> RFIDManager
       \<Rightarrow> bool \<times> RFIDManager \<times> EEPROMData" where
  "removeCard u local commit ee s =
     (let index = findCardIndex s u in
      if index = - 1 then (False, s, ee)
      else
        let s' = s\<lparr>rf_authorizedCards :=
                     shift_cards (nat index) (nat (rf_numCards s)) (rf_authorizedCards s),
                   rf_numCards := rf_numCards s - 1\<rparr>
        in (fst (saveToEEPROM local commit s'), s', snd (saveToEEPROM local commit s')))"

text \<open>The state that the constructor leaves: no cards, not initialised.\<close>

definition constructed :: "RFIDCard list \<Rightarrow> RFIDManager" where
  "constructed a = \<lparr>rf_authorizedCards = a, rf_numCards = 0, rf_initialized = False\<rparr>"

section \<open>Example states\<close>

text \<open>A slot manager fresh from \<^verbatim>\<open>begin\<close>, one with a single car, and a full one.\<close>

definition fresh_sm :: SlotManager where
  "fresh_sm = snd (begin_sm \<lparr>sm_slots = [], sm_availableSlots = 0, sm_initialized = False\<rparr>)"

definition one_car :: SlotManager where
  "one_car = snd (allocateSlot ''0A1B2C3D'' 0 5000 fresh_sm)"

definition full_sm :: SlotManager where
  "full_sm = run_slot_ops (map (\<lambda>c. AllocateSlot [c] 0 5000) ''0123456789'') fresh_sm"

text \<open>
  An initialised gate with a registered callback, in a given state and with a given
  previous sensor reading; the state was entered at clock reading 0.
\<close>

definition gate_in :: "GateState \<Rightarrow> bool \<Rightarrow> GateController" where
  "gate_in st was =
     \<lparr>gc_state = st, gc_lastScannedCard = [], gc_stateStartTime = 0, gc_eventCallback = True,
      gc_vehicleWasDetected = was, gc_initialized = True\<rparr>"

text \<open>
  EEPROM images: an erased one, one with a good tag and a count beyond the capacity, one
  with a good tag whose second card is deactivated, and one with a good tag that holds the
  same UID twice, deactivated first and active second. Card managers: newly constructed,
  started on each image, and one filled to capacity.
\<close>

definition blank_card :: RFIDCard where
  "blank_card = \<lparr>uid = [], isActive = False, accessLevel = 0, ownerName = []\<rparr>"

definition blank_ee :: EEPROMData where
  "blank_ee = \<lparr>magic = 0xFFFFFFFF, numCards = - 1, cards = replicate 50 blank_card\<rparr>"

definition badcount_ee :: EEPROMData where
  "badcount_ee = \<lparr>magic = 0xABCD1234, numCards = 51, cards = replicate 50 blank_card\<rparr>"

definition deactivated_ee :: EEPROMData where
  "deactivated_ee =
     \<lparr>magic = 0xABCD1234, numCards = 3,
      cards = [DEFAULT_CARD_1, DEFAULT_CARD_2\<lparr>isActive := False\<rparr>, DEFAULT_CARD_3]
              @ replicate 47 blank_card\<rparr>"

definition duplicate_ee :: EEPROMData where
  "duplicate_ee =
     \<lparr>magic = 0xABCD1234, numCards = 2,
      cards = [DEFAULT_CARD_2\<lparr>isActive := False\<rparr>, DEFAULT_CARD_2] @ replicate 48 blank_card\<rparr>"

definition new_rf :: RFIDManager where
  "new_rf = constructed (replicate 50 blank_card)"

definition default_rf :: RFIDManager where
  "default_rf = fst (snd (begin_rf blank_ee True blank_ee new_rf))"

definition deactivated_rf :: RFIDManager where
  "deactivated_rf = fst (snd (begin_rf blank_ee True deactivated_ee new_rf))"

definition duplicate_rf :: RFIDManager where
  "duplicate_rf = fst (snd (begin_rf blank_ee True duplicate_ee new_rf))"

definition card_no :: "nat \<Rightarrow> RFIDCard" where
  "card_no i =
     \<lparr>uid = ''CARD00'' @ [''0123456789'' ! (i div 10), ''0123456789'' ! (i mod 10)],
      isActive = True, accessLevel = 0, ownerName = ''User''\<rparr>"

definition full_rf :: RFIDManager where
  "full_rf = \<lparr>rf_authorizedCards = map card_no [0..<50], rf_numCards = 50, rf_initialized = True\<rparr>"

section \<open>The slot allocator keeps its counter exact\<close>

text \<open>
  A scan for a free slot either finds none, and then every slot is occupied, or returns the
  least index of a free slot.
\<close>

lemma findAvailableSlot_scan_cases:
  "(findAvailableSlot_scan i ps = - 1 \<and> (\<forall>p\<in>set ps. occupied p)) \<or>
   (\<exists>j<length ps. findAvailableSlot_scan i ps = int i + int j \<and> \<not> occupied (ps ! j) \<and>
      (\<forall>k<j. occupied (ps ! k)))"
proof (induction ps arbitrary: i)
  case Nil
  then show ?case by simp
next
  case (Cons p ps)
  show ?case
  proof (cases "occupied p")
    case False
    then show ?thesis by auto
  next
    case True
    from Cons.IH [of "Suc i"] show ?thesis
    proof
      assume "findAvailableSlot_scan (Suc i) ps = - 1 \<and> (\<forall>p\<in>set ps. occupied p)"
      with True show ?thesis by simp
    next
      assume "\<exists>j<length ps. findAvailableSlot_scan (Suc i) ps = int (Suc i) + int j \<and>
          \<not> occupied (ps ! j) \<and> (\<forall>k<j. occupied (ps ! k))"
      then obtain j where j: "j < length ps"
        "findAvailableSlot_scan (Suc i) ps = int (Suc i) + int j"
        "\<not> occupied (ps ! j)" "\<forall>k<j. occupied (ps ! k)" by blast
      have "\<forall>k<Suc j. occupied ((p # ps) ! k)"
        using True j(4) by (auto simp: nth_Cons split: nat.splits)
      with j True have "Suc j < length (p # ps) \<and>
          findAvailableSlot_scan i (p # ps) = int i + int (Suc j) \<and>
          \<not> occupied ((p # ps) ! Suc j) \<and> (\<forall>k<Suc j. occupied ((p # ps) ! k))"
        by simp
      then show ?thesis by blast
    qed
  qed
qed

lemma free_count_take:
  "j < length ps \<Longrightarrow> \<not> occupied (ps ! j) \<Longrightarrow> occupied q \<Longrightarrow>
   length (filter (\<lambda>p. \<not> occupied p) (ps[j := q])) + 1 = length (filter (\<lambda>p. \<not> occupied p) ps)"
proof (induction ps arbitrary: j)
  case Nil
  then show ?case by simp
next
  case (Cons p ps)
  then show ?case by (cases j) auto
qed

lemma free_count_give:
  "j < length ps \<Longrightarrow> occupied (ps ! j) \<Longrightarrow> \<not> occupied q \<Longrightarrow>
   length (filter (\<lambda>p. \<not> occupied p) (ps[j := q])) = length (filter (\<lambda>p. \<not> occupied p) ps) + 1"
proof (induction ps arbitrary: j)
  case Nil
  then show ?case by simp
next
  case (Cons p ps)
  then show ?case by (cases j) auto
qed

lemma numbered_update:
  "numbered ps \<Longrightarrow> slotNumber q = slotNumber (ps ! j) \<Longrightarrow> numbered (ps[j := q])"
proof (cases "j < length ps")
  case True
  assume n: "numbered ps" and q: "slotNumber q = slotNumber (ps ! j)"
  have "map slotNumber (ps[j := q]) = (map slotNumber ps)[j := map slotNumber ps ! j]"
    using True q by (simp add: map_update)
  also have "\<dots> = map slotNumber ps" by simp
  finally show ?thesis using n by (simp add: numbered_def)
next
  case False
  assume n: "numbered ps"
  from False have "ps[j := q] = ps" by (intro list_update_beyond) simp
  with n show ?thesis by simp
qed

lemma numbered_nth: "numbered ps \<Longrightarrow> i < length ps \<Longrightarrow> slotNumber (ps ! i) = int i + 1"
proof -
  assume n: "numbered ps" and i: "i < length ps"
  have "slotNumber (ps ! i) = map slotNumber ps ! i" using i by simp
  also have "\<dots> = map (\<lambda>i. int i + 1) [0..<length ps] ! i" using n by (simp add: numbered_def)
  also have "\<dots> = int i + 1" using i by simp
  finally show ?thesis .
qed

lemma slots_ok_begin: "slots_ok (snd (begin_sm s))"
  by (simp add: slots_ok_def begin_sm_def numbered_def freeCount_def begin_slot_def
      TOTAL_SLOTS_def comp_def)

lemma slots_ok_allocateSlot:
  assumes "slots_ok s"
  shows "slots_ok (snd (allocateSlot u entry millis s))"
proof -
  let ?ps = "sm_slots s"
  from findAvailableSlot_scan_cases [of 0 ?ps]
  show ?thesis
  proof
    assume "findAvailableSlot_scan 0 ?ps = - 1 \<and> (\<forall>p\<in>set ?ps. occupied p)"
    then show ?thesis using assms
      by (simp add: allocateSlot_def findAvailableSlot_def Let_def)
  next
    assume "\<exists>j<length ?ps. findAvailableSlot_scan 0 ?ps = int 0 + int j \<and>
        \<not> occupied (?ps ! j) \<and> (\<forall>k<j. occupied (?ps ! k))"
    then obtain j where j: "j < length ?ps" "findAvailableSlot_scan 0 ?ps = int j"
      "\<not> occupied (?ps ! j)" by auto
    show ?thesis
    proof (cases "findSlotByCard s u \<noteq> - 1")
      case True
      then show ?thesis using assms by (simp add: allocateSlot_def Let_def)
    next
      case False
      let ?q = "(?ps ! j)\<lparr>occupied := True, cardUID := toCharArray u 20,
                  entryTime := (if entry = 0 then millis div 1000 else entry)\<rparr>"
      have st: "snd (allocateSlot u entry millis s) =
          s\<lparr>sm_slots := ?ps[j := ?q], sm_availableSlots := sm_availableSlots s - 1\<rparr>"
        using False assms j
        by (simp add: allocateSlot_def findAvailableSlot_def Let_def slots_ok_def)
      have cnt: "length (filter (\<lambda>p. \<not> occupied p) (?ps[j := ?q])) + 1 =
          length (filter (\<lambda>p. \<not> occupied p) ?ps)"
        using j by (intro free_count_take) simp_all
      have num: "numbered (?ps[j := ?q])"
        using assms by (intro numbered_update) (simp_all add: slots_ok_def)
      show ?thesis
        unfolding st using assms cnt num by (simp add: slots_ok_def freeCount_def)
    qed
  qed
qed

lemma slots_ok_releaseSlot:
  assumes "slots_ok s"
  shows "slots_ok (snd (releaseSlot n millis s))"
proof (cases "isValidSlotNumber n \<and> occupied (sm_slots s ! nat (slotNumberToIndex n))")
  case False
  then show ?thesis using assms by (auto simp: releaseSlot_def Let_def)
next
  case True
  let ?ps = "sm_slots s"
  let ?j = "nat (slotNumberToIndex n)"
  let ?q = "(?ps ! ?j)\<lparr>occupied := False, cardUID := [], entryTime := 0\<rparr>"
  have "1 \<le> n" and "n \<le> int (length ?ps)"
    using True assms by (simp_all add: isValidSlotNumber_def slots_ok_def)
  then have j: "?j < length ?ps"
    unfolding slotNumberToIndex_def by linarith
  have st: "snd (releaseSlot n millis s) =
      s\<lparr>sm_slots := ?ps[?j := ?q], sm_availableSlots := sm_availableSlots s + 1\<rparr>"
    using True assms by (simp add: releaseSlot_def Let_def slots_ok_def)
  have cnt: "length (filter (\<lambda>p. \<not> occupied p) (?ps[?j := ?q])) =
      length (filter (\<lambda>p. \<not> occupied p) ?ps) + 1"
    using j True by (intro free_count_give) simp_all
  have num: "numbered (?ps[?j := ?q])"
    using assms by (intro numbered_update) (simp_all add: slots_ok_def)
  show ?thesis
    unfolding st using assms cnt num by (simp add: slots_ok_def freeCount_def)
qed

lemma slots_ok_releaseSlotByCard:
  "slots_ok s \<Longrightarrow> slots_ok (snd (snd (releaseSlotByCard u millis s)))"
  by (simp add: releaseSlotByCard_def Let_def slots_ok_releaseSlot)

lemma numbered_map:
  "numbered ps \<Longrightarrow> (\<And>p. slotNumber (f p) = slotNumber p) \<Longrightarrow> numbered (map f ps)"
  by (simp add: numbered_def comp_def)

lemma slots_ok_clearAllSlots:
  assumes "slots_ok s"
  shows "slots_ok (clearAllSlots s)"
proof -
  let ?f = "\<lambda>p. p\<lparr>occupied := False, cardUID := [], entryTime := 0\<rparr>"
  have "numbered (map ?f (sm_slots s))"
    using assms by (intro numbered_map) (simp_all add: slots_ok_def)
  moreover have "filter (\<lambda>p. \<not> occupied p) (map ?f (sm_slots s)) = map ?f (sm_slots s)"
    by (simp add: filter_map comp_def)
  ultimately show ?thesis
    using assms by (simp add: slots_ok_def clearAllSlots_def freeCount_def)
qed

lemma slots_ok_apply_slot_op: "slots_ok s \<Longrightarrow> slots_ok (apply_slot_op a s)"
  by (cases a)
    (simp_all add: slots_ok_allocateSlot slots_ok_releaseSlot slots_ok_releaseSlotByCard
      slots_ok_clearAllSlots)

lemma slots_ok_run_slot_ops: "slots_ok s \<Longrightarrow> slots_ok (run_slot_ops ops s)"
  by (induction ops arbitrary: s) (simp_all add: slots_ok_apply_slot_op)

lemma free_plus_occupied: "freeCount s + occupiedCount s = length (sm_slots s)"
  by (simp add: freeCount_def occupiedCount_def sum_length_filter_compl add.commute)

text \<open>
  Claim C1. After \<^verbatim>\<open>begin()\<close>, whatever state the manager was in before, every
  sequence of the public operations \<^verbatim>\<open>allocateSlot\<close>, \<^verbatim>\<open>releaseSlot\<close>,
  \<^verbatim>\<open>releaseSlotByCard\<close> and \<^verbatim>\<open>clearAllSlots\<close> ends in a state whose cached
  counter of available slots is the number of slots with the occupied flag false, so that
  the counter plus the number of occupied slots is \<^const>\<open>TOTAL_SLOTS\<close>.
\<close>

theorem available_count_invariant:
  "sm_availableSlots (run_slot_ops ops (snd (begin_sm s0)))
     = int (freeCount (run_slot_ops ops (snd (begin_sm s0)))) \<and>
   sm_availableSlots (run_slot_ops ops (snd (begin_sm s0)))
     + int (occupiedCount (run_slot_ops ops (snd (begin_sm s0)))) = int TOTAL_SLOTS"
proof -
  let ?s = "run_slot_ops ops (snd (begin_sm s0))"
  have ok: "slots_ok ?s" by (intro slots_ok_run_slot_ops slots_ok_begin)
  have "int (freeCount ?s) + int (occupiedCount ?s) = int (length (sm_slots ?s))"
    using free_plus_occupied [of ?s] by linarith
  with ok show ?thesis by (simp add: slots_ok_def)
qed

subsection \<open>Example states are well formed\<close>

lemma slots_ok_fresh_sm: "slots_ok fresh_sm"
  unfolding fresh_sm_def by (rule slots_ok_begin)

lemma slots_ok_one_car: "slots_ok one_car"
  unfolding one_car_def by (intro slots_ok_allocateSlot slots_ok_fresh_sm)

lemma slots_ok_full_sm: "slots_ok full_sm"
  unfolding full_sm_def by (intro slots_ok_run_slot_ops slots_ok_fresh_sm)

section \<open>Allocation\<close>

text \<open>
  The early return: in an initialised manager in which \<^verbatim>\<open>findSlotByCard(u)\<close> finds
  an occupied slot whose stored holder equals \<open>u\<close>, \<^verbatim>\<open>allocateSlot(u)\<close> returns the
  number of that slot and leaves the whole state as it was.
\<close>

lemma allocateSlot_held:
  assumes "sm_initialized s" and "findSlotByCard s u \<noteq> - 1"
  shows "allocateSlot u entry millis s = (findSlotByCard s u, s)"
  using assms by (simp add: allocateSlot_def Let_def)

text \<open>A scan for a holder that finds nothing, and a scan after the holder was written.\<close>

lemma numbered_set_ge1: "numbered ps \<Longrightarrow> p \<in> set ps \<Longrightarrow> 1 \<le> slotNumber p"
  by (auto simp: in_set_conv_nth numbered_nth)

lemma findSlotByCard_scan_none:
  "findSlotByCard_scan ps u = - 1 \<Longrightarrow> \<forall>p\<in>set ps. slotNumber p \<noteq> - 1 \<Longrightarrow>
   \<forall>p\<in>set ps. \<not> (occupied p \<and> u = cardUID p)"
  by (induction ps) (auto split: if_splits)

lemma findSlotByCard_scan_update:
  "j < length ps \<Longrightarrow> \<forall>p\<in>set ps. \<not> (occupied p \<and> u = cardUID p) \<Longrightarrow>
   occupied q \<Longrightarrow> cardUID q = u \<Longrightarrow> findSlotByCard_scan (ps[j := q]) u = slotNumber q"
proof (induction ps arbitrary: j)
  case Nil
  then show ?case by simp
next
  case (Cons p ps)
  then show ?case by (cases j) auto
qed

text \<open>
  Two calls in a row, for a UID that fits the holder buffer (fewer than 20 characters): the
  second call returns what the first one returned and changes nothing.
\<close>

lemma allocateSlot_twice:
  assumes ok: "slots_ok s" and short: "length u < 20"
    and got: "fst (allocateSlot u entry millis s) \<noteq> - 1"
  shows "allocateSlot u entry' millis' (snd (allocateSlot u entry millis s))
         = (fst (allocateSlot u entry millis s), snd (allocateSlot u entry millis s))"
proof (cases "findSlotByCard s u \<noteq> - 1")
  case True
  then show ?thesis using ok by (simp add: allocateSlot_def Let_def slots_ok_def)
next
  case False
  let ?ps = "sm_slots s"
  from findAvailableSlot_scan_cases [of 0 ?ps] show ?thesis
  proof
    assume "findAvailableSlot_scan 0 ?ps = - 1 \<and> (\<forall>p\<in>set ?ps. occupied p)"
    with False got ok show ?thesis
      by (simp add: allocateSlot_def findAvailableSlot_def Let_def slots_ok_def)
  next
    assume "\<exists>j<length ?ps. findAvailableSlot_scan 0 ?ps = int 0 + int j \<and>
        \<not> occupied (?ps ! j) \<and> (\<forall>k<j. occupied (?ps ! k))"
    then obtain j where j: "j < length ?ps" "findAvailableSlot_scan 0 ?ps = int j" by auto
    let ?q = "(?ps ! j)\<lparr>occupied := True, cardUID := toCharArray u 20,
                entryTime := (if entry = 0 then millis div 1000 else entry)\<rparr>"
    let ?s' = "s\<lparr>sm_slots := ?ps[j := ?q], sm_availableSlots := sm_availableSlots s - 1\<rparr>"
    have first: "allocateSlot u entry millis s = (slotNumber ?q, ?s')"
      using False ok j by (simp add: allocateSlot_def findAvailableSlot_def Let_def slots_ok_def)
    have "\<forall>p\<in>set ?ps. slotNumber p \<noteq> - 1"
      using ok numbered_set_ge1 [of ?ps] by (fastforce simp: slots_ok_def)
    with False have none: "\<forall>p\<in>set ?ps. \<not> (occupied p \<and> u = cardUID p)"
      by (intro findSlotByCard_scan_none) (simp_all add: findSlotByCard_def)
    have "cardUID ?q = u" using short by (simp add: toCharArray_def)
    with j none have "findSlotByCard_scan (?ps[j := ?q]) u = slotNumber ?q"
      by (intro findSlotByCard_scan_update) simp_all
    then have held: "findSlotByCard ?s' u = slotNumber ?q" by (simp add: findSlotByCard_def)
    have "slotNumber ?q \<noteq> - 1" using got first by simp
    with held ok have "allocateSlot u entry' millis' ?s' = (slotNumber ?q, ?s')"
      by (simp add: allocateSlot_def Let_def slots_ok_def)
    with first show ?thesis by simp
  qed
qed

text \<open>
  Claim C2. Calling \<^verbatim>\<open>allocateSlot(u)\<close> twice without a release in between should
  return the same slot both times and decrement the counter once. The code does so only
  for a UID that fits the holder buffer (\<open>allocateSlot_twice\<close> above); it breaks the claim
  at a UID of 20 characters, such as the reader builds for a 10-byte UID. The buffer has
  room for 19 characters, so the holder is stored without its last character, while
  \<^verbatim>\<open>findSlotByCard\<close> compares the stored holder with the full UID and finds nothing.
  From a manager fresh from \<^verbatim>\<open>begin\<close>, the first call returns slot 1, the second call
  returns slot 2, and the counter has dropped from 10 to 8.
\<close>

theorem allocateSlot_twice_long_uid:
  "sm_availableSlots fresh_sm = 10 \<and>
   fst (allocateSlot ''0A1B2C3D4E5F60718293'' 0 5000 fresh_sm) = 1 \<and>
   cardUID (sm_slots (snd (allocateSlot ''0A1B2C3D4E5F60718293'' 0 5000 fresh_sm)) ! 0)
     = ''0A1B2C3D4E5F6071829'' \<and>
   findSlotByCard (snd (allocateSlot ''0A1B2C3D4E5F60718293'' 0 5000 fresh_sm))
     ''0A1B2C3D4E5F60718293'' = - 1 \<and>
   fst (allocateSlot ''0A1B2C3D4E5F60718293'' 0 9000
          (snd (allocateSlot ''0A1B2C3D4E5F60718293'' 0 5000 fresh_sm))) = 2 \<and>
   sm_availableSlots
     (snd (allocateSlot ''0A1B2C3D4E5F60718293'' 0 9000
             (snd (allocateSlot ''0A1B2C3D4E5F60718293'' 0 5000 fresh_sm)))) = 8"
  by code_simp

text \<open>The same two calls with a UID of 8 characters: slot 1 both times, 9 slots left.\<close>

lemma allocateSlot_twice_short_uid:
  "fst (allocateSlot ''0A1B2C3D'' 0 5000 fresh_sm) = 1 \<and>
   allocateSlot ''0A1B2C3D'' 0 9000 (snd (allocateSlot ''0A1B2C3D'' 0 5000 fresh_sm))
     = (1, snd (allocateSlot ''0A1B2C3D'' 0 5000 fresh_sm)) \<and>
   sm_availableSlots (snd (allocateSlot ''0A1B2C3D'' 0 5000 fresh_sm)) = 9"
proof -
  have ok: "slots_ok fresh_sm" by (rule slots_ok_fresh_sm)
  have len: "length ''0A1B2C3D'' < 20" by simp
  have a: "fst (allocateSlot ''0A1B2C3D'' 0 5000 fresh_sm) = 1" by code_simp
  have n: "sm_availableSlots (snd (allocateSlot ''0A1B2C3D'' 0 5000 fresh_sm)) = 9"
    by code_simp
  from a have got: "fst (allocateSlot ''0A1B2C3D'' 0 5000 fresh_sm) \<noteq> - 1" by simp
  from allocateSlot_twice [OF ok len got, of 0 9000] a n show ?thesis by simp
qed

text \<open>
  Claim C5. In a state reached after \<^verbatim>\<open>begin()\<close> and for a UID that holds no slot: if
  no slot is free, \<^verbatim>\<open>allocateSlot\<close> returns \<open>-1\<close> and changes nothing; otherwise it
  takes the free slot of least index \<open>i\<close>, whose number \<open>i + 1\<close> is the lowest among
  the free slots, marks it occupied with the holder and the entry time, decrements the
  counter and returns \<open>i + 1\<close>.
\<close>

theorem allocateSlot_first_fit:
  assumes ok: "slots_ok s" and nohold: "findSlotByCard s u = - 1"
  shows "if (\<forall>p\<in>set (sm_slots s). occupied p)
         then allocateSlot u entry millis s = (- 1, s)
         else (\<exists>i<TOTAL_SLOTS.
                 \<not> occupied (sm_slots s ! i) \<and>
                 (\<forall>k<i. occupied (sm_slots s ! k)) \<and>
                 (\<forall>p\<in>set (sm_slots s). \<not> occupied p \<longrightarrow> int i + 1 \<le> slotNumber p) \<and>
                 slotNumber (sm_slots s ! i) = int i + 1 \<and>
                 allocateSlot u entry millis s =
                   (int i + 1,
                    s\<lparr>sm_slots := (sm_slots s)
                         [i := (sm_slots s ! i)
                            \<lparr>occupied := True, cardUID := toCharArray u 20,
                             entryTime := (if entry = 0 then millis div 1000 else entry)\<rparr>],
                      sm_availableSlots := sm_availableSlots s - 1\<rparr>))"
proof -
  let ?ps = "sm_slots s"
  from findAvailableSlot_scan_cases [of 0 ?ps] show ?thesis
  proof
    assume full: "findAvailableSlot_scan 0 ?ps = - 1 \<and> (\<forall>p\<in>set ?ps. occupied p)"
    then have "allocateSlot u entry millis s = (- 1, s)"
      using ok nohold by (simp add: allocateSlot_def findAvailableSlot_def Let_def slots_ok_def)
    with full show ?thesis by simp
  next
    assume "\<exists>j<length ?ps. findAvailableSlot_scan 0 ?ps = int 0 + int j \<and>
        \<not> occupied (?ps ! j) \<and> (\<forall>k<j. occupied (?ps ! k))"
    then obtain j where j: "j < length ?ps" "findAvailableSlot_scan 0 ?ps = int j"
      "\<not> occupied (?ps ! j)" "\<forall>k<j. occupied (?ps ! k)" by auto
    have len: "length ?ps = TOTAL_SLOTS" and num: "numbered ?ps"
      using ok by (simp_all add: slots_ok_def)
    have sn: "slotNumber (?ps ! j) = int j + 1" using num j(1) by (rule numbered_nth)
    have low: "\<forall>p\<in>set ?ps. \<not> occupied p \<longrightarrow> int j + 1 \<le> slotNumber p"
    proof (intro ballI impI)
      fix p assume "p \<in> set ?ps" and free: "\<not> occupied p"
      then obtain k where k: "k < length ?ps" "?ps ! k = p" by (auto simp: in_set_conv_nth)
      with free j(4) have "j \<le> k" by (metis not_le_imp_less)
      moreover have "slotNumber p = int k + 1" using numbered_nth [OF num k(1)] k(2) by simp
      ultimately show "int j + 1 \<le> slotNumber p" by simp
    qed
    have notfull: "\<not> (\<forall>p\<in>set ?ps. occupied p)" using j(1,3) nth_mem by blast
    have res: "allocateSlot u entry millis s =
        (int j + 1,
         s\<lparr>sm_slots := ?ps[j := (?ps ! j)\<lparr>occupied := True, cardUID := toCharArray u 20,
                entryTime := (if entry = 0 then millis div 1000 else entry)\<rparr>],
           sm_availableSlots := sm_availableSlots s - 1\<rparr>)"
      using ok nohold j(2) sn
      by (simp add: allocateSlot_def findAvailableSlot_def Let_def slots_ok_def)
    have "j < TOTAL_SLOTS" using j(1) len by simp
    with j(3,4) low sn res notfull show ?thesis by auto
  qed
qed

theorem allocateSlot_first_fit_witness:
  "slots_ok one_car \<and> findSlotByCard one_car ''1A2B3C4D'' = - 1 \<and>
   \<not> list_all occupied (sm_slots one_car) \<and>
   fst (allocateSlot ''1A2B3C4D'' 0 7000 one_car) = 2 \<and>
   slots_ok full_sm \<and> findSlotByCard full_sm ''1A2B3C4D'' = - 1 \<and>
   list_all occupied (sm_slots full_sm) \<and>
   allocateSlot ''1A2B3C4D'' 0 7000 full_sm = (- 1, full_sm)"
proof -
  have h1: "findSlotByCard one_car ''1A2B3C4D'' = - 1" by code_simp
  have f1: "\<not> list_all occupied (sm_slots one_car)" by code_simp
  have r1: "fst (allocateSlot ''1A2B3C4D'' 0 7000 one_car) = 2" by code_simp
  have h2: "findSlotByCard full_sm ''1A2B3C4D'' = - 1" by code_simp
  have f2: "list_all occupied (sm_slots full_sm)" by code_simp
  from f2 have all: "\<forall>p\<in>set (sm_slots full_sm). occupied p" by (simp add: list_all_iff)
  from allocateSlot_first_fit [OF slots_ok_full_sm h2, of 0 7000] all
  have r2: "allocateSlot ''1A2B3C4D'' 0 7000 full_sm = (- 1, full_sm)" by simp
  from allocateSlot_first_fit [OF slots_ok_one_car h1, of 0 7000]
       slots_ok_one_car slots_ok_full_sm h1 f1 r1 h2 f2 r2
  show ?thesis by simp
qed

section \<open>Release\<close>

text \<open>
  Claim C6. In a state reached after \<^verbatim>\<open>begin()\<close> and for every slot number \<open>n\<close>:
  if slot \<open>n\<close> is not occupied (or \<open>n\<close> is no slot number), \<^verbatim>\<open>releaseSlot(n)\<close>
  returns 0 and leaves the state unchanged; if it is occupied, the call returns the
  seconds elapsed since the entry time (clock in seconds minus entry time, on 32 bits),
  clears the occupied flag, the holder and the entry time of that slot only, and
  increments the counter; a second release of the same slot then returns 0 and changes
  nothing.
\<close>

theorem releaseSlot_contract:
  assumes ok: "slots_ok s"
  shows "if isSlotOccupied s n
         then fst (releaseSlot n millis s)
                = millis div 1000 - entryTime (sm_slots s ! nat (n - 1)) \<and>
              sm_slots (snd (releaseSlot n millis s))
                = (sm_slots s)[nat (n - 1) := (sm_slots s ! nat (n - 1))
                                  \<lparr>occupied := False, cardUID := [], entryTime := 0\<rparr>] \<and>
              sm_availableSlots (snd (releaseSlot n millis s)) = sm_availableSlots s + 1 \<and>
              sm_initialized (snd (releaseSlot n millis s)) \<and>
              \<not> isSlotOccupied (snd (releaseSlot n millis s)) n \<and>
              releaseSlot n millis' (snd (releaseSlot n millis s))
                = (0, snd (releaseSlot n millis s))
         else releaseSlot n millis s = (0, s)"
proof (cases "isSlotOccupied s n")
  case False
  then show ?thesis
    by (auto simp: releaseSlot_def isSlotOccupied_def Let_def split: if_splits)
next
  case True
  let ?ps = "sm_slots s"
  let ?j = "nat (n - 1)"
  let ?q = "(?ps ! ?j)\<lparr>occupied := False, cardUID := [], entryTime := 0\<rparr>"
  let ?s' = "s\<lparr>sm_slots := ?ps[?j := ?q], sm_availableSlots := sm_availableSlots s + 1\<rparr>"
  from True have valid: "isValidSlotNumber n" and occ: "occupied (?ps ! ?j)"
    by (simp_all add: isSlotOccupied_def slotNumberToIndex_def split: if_splits)
  have "1 \<le> n" and "n \<le> int (length ?ps)"
    using valid ok by (simp_all add: isValidSlotNumber_def slots_ok_def)
  then have j: "?j < length ?ps" by linarith
  have rel: "releaseSlot n millis s = (millis div 1000 - entryTime (?ps ! ?j), ?s')"
    using ok valid occ by (simp add: releaseSlot_def Let_def slots_ok_def slotNumberToIndex_def)
  have free: "\<not> occupied (sm_slots ?s' ! ?j)" using j by simp
  then have again: "releaseSlot n millis' ?s' = (0, ?s')"
    by (simp add: releaseSlot_def Let_def slotNumberToIndex_def)
  have "\<not> isSlotOccupied ?s' n"
    using free by (simp add: isSlotOccupied_def slotNumberToIndex_def)
  with True rel again ok show ?thesis by (simp add: slots_ok_def)
qed

theorem releaseSlot_contract_witness:
  "slots_ok one_car \<and> isSlotOccupied one_car 1 \<and> \<not> isSlotOccupied one_car 2 \<and>
   releaseSlot 1 65000 one_car = (60, fresh_sm) \<and>
   releaseSlot 1 70000 fresh_sm = (0, fresh_sm) \<and>
   releaseSlot 2 65000 one_car = (0, one_car)"
proof -
  have o1: "isSlotOccupied one_car 1" by code_simp
  have o2: "\<not> isSlotOccupied one_car 2" by code_simp
  have r: "releaseSlot 1 65000 one_car = (60, fresh_sm)" by code_simp
  from releaseSlot_contract [OF slots_ok_one_car, of 1 65000 70000]
       releaseSlot_contract [OF slots_ok_one_car, of 2 65000]
       slots_ok_one_car o1 o2 r
  show ?thesis by simp
qed


section \<open>The gate state machine\<close>

text \<open>
  Claim C3. In every state other than \<^const>\<open>STATE_WAITING_CARD\<close> and for every
  argument vector, \<^verbatim>\<open>handleCardScanned\<close> leaves the gate as it was and has no effect:
  no event is delivered and the servo is not written.
\<close>

theorem handleCardScanned_ignored:
  assumes "gc_state g \<noteq> STATE_WAITING_CARD"
  shows "handleCardScanned u authorized slotNo parkingFull millis g = (g, [])"
  using assms by (simp add: handleCardScanned_def)

theorem handleCardScanned_ignored_witness:
  "gc_state (gate_in STATE_IDLE True) \<noteq> STATE_WAITING_CARD \<and>
   handleCardScanned ''0A1B2C3D'' True 3 False 4000 (gate_in STATE_IDLE True)
     = (gate_in STATE_IDLE True, []) \<and>
   gc_state (gate_in STATE_BARRIER_OPEN True) \<noteq> STATE_WAITING_CARD \<and>
   handleCardScanned ''0A1B2C3D'' True 3 False 4000 (gate_in STATE_BARRIER_OPEN True)
     = (gate_in STATE_BARRIER_OPEN True, []) \<and>
   gc_state (gate_in STATE_CLOSING_DELAY False) \<noteq> STATE_WAITING_CARD \<and>
   handleCardScanned ''FFFFFFFF'' False (- 1) True 4000 (gate_in STATE_CLOSING_DELAY False)
     = (gate_in STATE_CLOSING_DELAY False, [])"
proof -
  have a: "gc_state (gate_in STATE_IDLE True) \<noteq> STATE_WAITING_CARD"
    and b: "gc_state (gate_in STATE_BARRIER_OPEN True) \<noteq> STATE_WAITING_CARD"
    and c: "gc_state (gate_in STATE_CLOSING_DELAY False) \<noteq> STATE_WAITING_CARD"
    by (simp_all add: gate_in_def)
  from handleCardScanned_ignored [OF a, of "''0A1B2C3D''" True 3 False 4000]
       handleCardScanned_ignored [OF b, of "''0A1B2C3D''" True 3 False 4000]
       handleCardScanned_ignored [OF c, of "''FFFFFFFF''" False "- 1" True 4000]
       a b c
  show ?thesis by simp
qed

text \<open>
  Claim C4, as stated, fails when the elapsed time equals the timeout: a gate that entered
  \<^const>\<open>STATE_WAITING_CARD\<close> at clock reading 0, with the vehicle present before and now,
  is still waiting after the call of \<^verbatim>\<open>update\<close> at clock reading 10000, and nothing
  was delivered.
\<close>

theorem update_timeout_at_limit:
  "gc_initialized (gate_in STATE_WAITING_CARD True) \<and>
   gc_state (gate_in STATE_WAITING_CARD True) = STATE_WAITING_CARD \<and>
   gc_vehicleWasDetected (gate_in STATE_WAITING_CARD True) \<and>
   getStateElapsedTime (gate_in STATE_WAITING_CARD True) 10000 = CARD_SCAN_TIMEOUT \<and>
   gc_state (fst (update True 10000 (gate_in STATE_WAITING_CARD True))) = STATE_WAITING_CARD \<and>
   snd (update True 10000 (gate_in STATE_WAITING_CARD True)) = []"
  by (simp add: gate_in_def update_def getStateElapsedTime_def CARD_SCAN_TIMEOUT_def)

text \<open>
  Claim C4, amended. For an initialised gate with a registered callback in
  \<^const>\<open>STATE_WAITING_CARD\<close> and a call of \<^verbatim>\<open>update\<close> without a falling edge of the
  presence reading: if the time elapsed since the state was entered (on 32 bits) is
  strictly greater than \<^const>\<open>CARD_SCAN_TIMEOUT\<close>, the gate goes to
  \<^const>\<open>STATE_IDLE\<close>, restarts the state clock and delivers exactly one
  \<^const>\<open>EVENT_TIMEOUT\<close>; otherwise, in particular when the elapsed time equals the
  timeout, it keeps waiting and delivers nothing.
\<close>

theorem update_timeout:
  assumes "gc_initialized g" and "gc_eventCallback g" and "gc_state g = STATE_WAITING_CARD"
    and "\<not> (\<not> v \<and> gc_vehicleWasDetected g)"
  shows "update v millis g =
           (if getStateElapsedTime g millis > CARD_SCAN_TIMEOUT
            then (g\<lparr>gc_state := STATE_IDLE, gc_stateStartTime := millis,
                    gc_vehicleWasDetected := v\<rparr>,
                  [Callback (updateEvent EVENT_TIMEOUT)])
            else (g\<lparr>gc_vehicleWasDetected := v\<rparr>, []))"
proof -
  from assms(4) have nf: "(\<not> v \<and> gc_vehicleWasDetected g) = False" by simp
  show ?thesis
    using assms(1-3) by (simp add: update_def setState_def fireEvent_def nf)
qed

theorem update_timeout_witness:
  "gc_initialized (gate_in STATE_WAITING_CARD True) \<and>
   gc_eventCallback (gate_in STATE_WAITING_CARD True) \<and>
   gc_state (gate_in STATE_WAITING_CARD True) = STATE_WAITING_CARD \<and>
   getStateElapsedTime (gate_in STATE_WAITING_CARD True) 10001 > CARD_SCAN_TIMEOUT \<and>
   gc_state (fst (update True 10001 (gate_in STATE_WAITING_CARD True))) = STATE_IDLE \<and>
   events (snd (update True 10001 (gate_in STATE_WAITING_CARD True))) = [EVENT_TIMEOUT] \<and>
   update True 10000 (gate_in STATE_WAITING_CARD True) = (gate_in STATE_WAITING_CARD True, [])"
proof -
  let ?g = "gate_in STATE_WAITING_CARD True"
  have i: "gc_initialized ?g" and c: "gc_eventCallback ?g"
    and s: "gc_state ?g = STATE_WAITING_CARD"
    and e: "\<not> (\<not> True \<and> gc_vehicleWasDetected ?g)"
    by (simp_all add: gate_in_def)
  have late: "getStateElapsedTime ?g 10001 > CARD_SCAN_TIMEOUT"
    and limit: "\<not> getStateElapsedTime ?g 10000 > CARD_SCAN_TIMEOUT"
    by (simp_all add: gate_in_def getStateElapsedTime_def CARD_SCAN_TIMEOUT_def)
  have same: "?g\<lparr>gc_vehicleWasDetected := True\<rparr> = ?g" by (simp add: gate_in_def)
  from update_timeout [OF i c s e, of 10001] update_timeout [OF i c s e, of 10000]
       i c s late limit same
  show ?thesis by (simp add: updateEvent_def)
qed

text \<open>A vehicle that stays present in front of an idle gate changes nothing.\<close>

lemma update_idle_steady:
  assumes "gc_initialized g" and "gc_state g = STATE_IDLE" and "gc_vehicleWasDetected g"
  shows "update True millis g = (g, [])"
  using assms by (simp add: update_def)

lemma updates_idle_steady:
  assumes "gc_initialized g" and "gc_state g = STATE_IDLE" and "gc_vehicleWasDetected g"
    and "\<forall>tk\<in>set ticks. fst tk"
  shows "updates ticks g = (g, [])"
  using assms(4)
proof (induction ticks)
  case Nil
  then show ?case by simp
next
  case (Cons tk ticks)
  obtain v t where tk: "tk = (v, t)" by (cases tk)
  with Cons.prems have v by simp
  with tk Cons assms(1-3) show ?case by (simp add: update_idle_steady)
qed

text \<open>
  Claim C9. For an initialised gate with a registered callback in \<^const>\<open>STATE_IDLE\<close>,
  \<^verbatim>\<open>update\<close> compares the reading with the one of the previous call: on an
  absent-to-present edge, and only then, it goes to \<^const>\<open>STATE_WAITING_CARD\<close> and
  delivers exactly one \<^const>\<open>EVENT_VEHICLE_DETECTED\<close>; otherwise it stays idle and
  delivers nothing; in both cases it records the reading. Over any run of calls in which
  the vehicle was and stays present, the idle gate does not change and nothing is
  delivered.
\<close>

theorem update_idle_edge_triggered:
  assumes "gc_initialized g" and "gc_eventCallback g" and "gc_state g = STATE_IDLE"
  shows "update v millis g =
           (if v \<and> \<not> gc_vehicleWasDetected g
            then (g\<lparr>gc_state := STATE_WAITING_CARD, gc_stateStartTime := millis,
                    gc_vehicleWasDetected := True\<rparr>,
                  [Callback (updateEvent EVENT_VEHICLE_DETECTED)])
            else (g\<lparr>gc_vehicleWasDetected := v\<rparr>, [])) \<and>
         (gc_vehicleWasDetected g \<and> (\<forall>tk\<in>set ticks. fst tk) \<longrightarrow> updates ticks g = (g, []))"
proof -
  have "update v millis g =
           (if v \<and> \<not> gc_vehicleWasDetected g
            then (g\<lparr>gc_state := STATE_WAITING_CARD, gc_stateStartTime := millis,
                    gc_vehicleWasDetected := True\<rparr>,
                  [Callback (updateEvent EVENT_VEHICLE_DETECTED)])
            else (g\<lparr>gc_vehicleWasDetected := v\<rparr>, []))"
    using assms by (simp add: update_def setState_def fireEvent_def)
  moreover have "gc_vehicleWasDetected g \<and> (\<forall>tk\<in>set ticks. fst tk) \<longrightarrow> updates ticks g = (g, [])"
    using assms updates_idle_steady by blast
  ultimately show ?thesis by simp
qed

theorem update_idle_edge_triggered_witness:
  "gc_initialized (gate_in STATE_IDLE False) \<and> gc_eventCallback (gate_in STATE_IDLE False) \<and>
   gc_state (gate_in STATE_IDLE False) = STATE_IDLE \<and>
   gc_state (fst (update True 1000 (gate_in STATE_IDLE False))) = STATE_WAITING_CARD \<and>
   events (snd (update True 1000 (gate_in STATE_IDLE False))) = [EVENT_VEHICLE_DETECTED] \<and>
   update False 1000 (gate_in STATE_IDLE False) = (gate_in STATE_IDLE False, []) \<and>
   gc_vehicleWasDetected (gate_in STATE_IDLE True) \<and>
   updates [(True, 1000), (True, 1050), (True, 20000)] (gate_in STATE_IDLE True)
     = (gate_in STATE_IDLE True, [])"
proof -
  let ?g = "gate_in STATE_IDLE False" and ?h = "gate_in STATE_IDLE True"
  have g: "gc_initialized ?g" "gc_eventCallback ?g" "gc_state ?g = STATE_IDLE"
    "\<not> gc_vehicleWasDetected ?g"
    and h: "gc_initialized ?h" "gc_eventCallback ?h" "gc_state ?h = STATE_IDLE"
    "gc_vehicleWasDetected ?h"
    by (simp_all add: gate_in_def)
  have same: "?g\<lparr>gc_vehicleWasDetected := False\<rparr> = ?g" by (simp add: gate_in_def)
  have ticks: "\<forall>tk\<in>set [(True, 1000::ulong), (True, 1050), (True, 20000)]. fst tk" by simp
  from update_idle_edge_triggered [OF h(1-3), of True 1000
         "[(True, 1000), (True, 1050), (True, 20000)]"] h(4) ticks
  have steady: "updates [(True, 1000), (True, 1050), (True, 20000)] ?h = (?h, [])"
    by blast
  from update_idle_edge_triggered [OF g(1-3), of True 1000 "[]"] g(4)
  have edge: "update True 1000 ?g =
      (?g\<lparr>gc_state := STATE_WAITING_CARD, gc_stateStartTime := 1000,
           gc_vehicleWasDetected := True\<rparr>,
       [Callback (updateEvent EVENT_VEHICLE_DETECTED)])"
    by simp
  from update_idle_edge_triggered [OF g(1-3), of False 1000 "[]"] same
  have absent: "update False 1000 ?g = (?g, [])"
    by simp
  show ?thesis
    unfolding steady edge absent using g(1-3) h(4) by (simp add: updateEvent_def)
qed


section \<open>The card whitelist\<close>

lemma take5_update:
  assumes "5 \<le> length xs"
  shows "take 5 (xs[0 := a, 1 := b, 2 := c, 3 := d, 4 := e]) = [a, b, c, d, e]"
proof -
  from assms obtain x1 x2 x3 x4 x5 r where "xs = x1 # x2 # x3 # x4 # x5 # r"
    by (auto simp: Suc_le_length_iff eval_nat_numeral)
  then show ?thesis by simp
qed

lemma copy_cards_take: "n \<le> length a \<Longrightarrow> take n (copy_cards n a b) = take n a"
  by (simp add: copy_cards_def)

lemma copy_cards_roundtrip: "n \<le> length a \<Longrightarrow> copy_cards n (copy_cards n a b) a = a"
proof -
  assume "n \<le> length a"
  then have "take n (copy_cards n a b) = take n a" by (rule copy_cards_take)
  then have "copy_cards n (copy_cards n a b) a = take n a @ drop n a"
    by (simp add: copy_cards_def [of n "copy_cards n a b"])
  then show ?thesis by simp
qed

text \<open>
  Claim C7, as stated, fails for a snapshot with a good tag and a count out of range:
  started on such an image, a newly constructed manager reports failure and its whitelist
  stays empty instead of holding the default cards.
\<close>

theorem begin_rf_bad_count_not_reseeded:
  "magic badcount_ee = EEPROM_MAGIC \<and>
   numCards badcount_ee > int MAX_RFID_CARDS \<and>
   fst (begin_rf blank_ee True badcount_ee new_rf) = False \<and>
   whitelist (fst (snd (begin_rf blank_ee True badcount_ee new_rf))) = [] \<and>
   whitelist (fst (snd (begin_rf blank_ee True badcount_ee new_rf))) \<noteq> default_cards"
  by (simp add: badcount_ee_def EEPROM_MAGIC_def MAX_RFID_CARDS_def begin_rf_def
      initializeEEPROM_def loadFromEEPROM_def new_rf_def constructed_def whitelist_def
      default_cards_def)

text \<open>
  Claim C7, amended. At startup the tag alone decides about reseeding. With a bad tag the
  whitelist becomes the five default cards, the image is rewritten with the tag, the count
  5 and these cards, and the load that follows succeeds. With a good tag the load checks
  the count: within \<open>0..MAX_RFID_CARDS\<close> the snapshot is loaded; outside this range the
  load is refused, \<^verbatim>\<open>begin\<close> returns false, and whitelist and image stay as they were.
\<close>

theorem begin_rf_startup:
  assumes len: "length (rf_authorizedCards s) = MAX_RFID_CARDS"
  shows "if magic ee \<noteq> EEPROM_MAGIC
         then fst (begin_rf local commit ee s) \<and>
              rf_numCards (fst (snd (begin_rf local commit ee s))) = 5 \<and>
              whitelist (fst (snd (begin_rf local commit ee s))) = default_cards \<and>
              magic (snd (snd (begin_rf local commit ee s))) = EEPROM_MAGIC \<and>
              numCards (snd (snd (begin_rf local commit ee s))) = 5 \<and>
              take 5 (cards (snd (snd (begin_rf local commit ee s)))) = default_cards
         else if 0 \<le> numCards ee \<and> numCards ee \<le> int MAX_RFID_CARDS
         then begin_rf local commit ee s =
                (True,
                 s\<lparr>rf_numCards := numCards ee,
                   rf_authorizedCards :=
                     copy_cards (nat (numCards ee)) (cards ee) (rf_authorizedCards s),
                   rf_initialized := True\<rparr>,
                 ee)
         else begin_rf local commit ee s = (False, s\<lparr>rf_initialized := True\<rparr>, ee)"
proof (cases "magic ee \<noteq> EEPROM_MAGIC")
  case False
  then show ?thesis
    by (simp add: begin_rf_def initializeEEPROM_def loadFromEEPROM_def)
next
  case True
  define a where "a = (rf_authorizedCards s)
              [0 := DEFAULT_CARD_1, 1 := DEFAULT_CARD_2, 2 := DEFAULT_CARD_3,
               3 := DEFAULT_CARD_4, 4 := DEFAULT_CARD_5]"
  have five: "take 5 a = default_cards"
    unfolding default_cards_def a_def
    using len by (intro take5_update) (simp add: MAX_RFID_CARDS_def)
  have la: "5 \<le> length a" using len by (simp add: a_def MAX_RFID_CARDS_def)
  define ee1 where "ee1 = local\<lparr>magic := EEPROM_MAGIC, numCards := 5,
                     cards := copy_cards 5 a (cards local)\<rparr>"
  have init: "initializeEEPROM local commit ee s =
      (s\<lparr>rf_numCards := 5, rf_authorizedCards := a\<rparr>, ee1)"
    using True
    by (simp add: initializeEEPROM_def resetToDefaults_def saveToEEPROM_def Let_def
        DEFAULT_CARD_COUNT_def a_def ee1_def)
  have fld: "magic ee1 = EEPROM_MAGIC" "numCards ee1 = 5"
    by (simp_all add: ee1_def)
  have tk: "take 5 (cards ee1) = take 5 a"
    using la by (simp add: ee1_def copy_cards_take)
  have rt: "copy_cards 5 (cards ee1) a = a"
    using la by (simp add: ee1_def copy_cards_roundtrip)
  have res: "begin_rf local commit ee s =
      (True, s\<lparr>rf_numCards := 5, rf_authorizedCards := a, rf_initialized := True\<rparr>, ee1)"
    unfolding begin_rf_def init
    by (simp add: loadFromEEPROM_def MAX_RFID_CARDS_def rt fld)
  show ?thesis
    using True five tk fld unfolding res by (simp add: whitelist_def)
qed

theorem begin_rf_startup_witness:
  "length (rf_authorizedCards new_rf) = MAX_RFID_CARDS \<and>
   magic blank_ee \<noteq> EEPROM_MAGIC \<and>
   fst (begin_rf blank_ee False blank_ee new_rf) \<and>
   whitelist (fst (snd (begin_rf blank_ee False blank_ee new_rf))) = default_cards \<and>
   magic deactivated_ee = EEPROM_MAGIC \<and>
   fst (begin_rf blank_ee True deactivated_ee new_rf) \<and>
   whitelist (fst (snd (begin_rf blank_ee True deactivated_ee new_rf)))
     = [DEFAULT_CARD_1, DEFAULT_CARD_2\<lparr>isActive := False\<rparr>, DEFAULT_CARD_3] \<and>
   magic badcount_ee = EEPROM_MAGIC \<and>
   begin_rf blank_ee True badcount_ee new_rf
     = (False, new_rf\<lparr>rf_initialized := True\<rparr>, badcount_ee)"
proof -
  have len: "length (rf_authorizedCards new_rf) = MAX_RFID_CARDS"
    by (simp add: new_rf_def constructed_def MAX_RFID_CARDS_def)
  have m1: "magic blank_ee \<noteq> EEPROM_MAGIC"
    by (simp add: blank_ee_def EEPROM_MAGIC_def)
  have m2: "magic deactivated_ee = EEPROM_MAGIC" "0 \<le> numCards deactivated_ee"
    "numCards deactivated_ee \<le> int MAX_RFID_CARDS"
    by (simp_all add: deactivated_ee_def EEPROM_MAGIC_def MAX_RFID_CARDS_def)
  have m3: "magic badcount_ee = EEPROM_MAGIC"
    "\<not> (0 \<le> numCards badcount_ee \<and> numCards badcount_ee \<le> int MAX_RFID_CARDS)"
    by (simp_all add: badcount_ee_def EEPROM_MAGIC_def MAX_RFID_CARDS_def)
  have w: "whitelist (new_rf\<lparr>rf_numCards := numCards deactivated_ee,
               rf_authorizedCards := copy_cards (nat (numCards deactivated_ee))
                  (cards deactivated_ee) (rf_authorizedCards new_rf),
               rf_initialized := True\<rparr>)
           = [DEFAULT_CARD_1, DEFAULT_CARD_2\<lparr>isActive := False\<rparr>, DEFAULT_CARD_3]"
    by (simp add: whitelist_def copy_cards_def deactivated_ee_def)
  from begin_rf_startup [OF len, of blank_ee blank_ee False] m1
  have a: "fst (begin_rf blank_ee False blank_ee new_rf) \<and>
      whitelist (fst (snd (begin_rf blank_ee False blank_ee new_rf))) = default_cards"
    by simp
  from begin_rf_startup [OF len, of deactivated_ee blank_ee True] m2
  have b: "begin_rf blank_ee True deactivated_ee new_rf =
      (True, new_rf\<lparr>rf_numCards := numCards deactivated_ee,
               rf_authorizedCards := copy_cards (nat (numCards deactivated_ee))
                  (cards deactivated_ee) (rf_authorizedCards new_rf),
               rf_initialized := True\<rparr>, deactivated_ee)"
    by simp
  from begin_rf_startup [OF len, of badcount_ee blank_ee True] m3
  have c: "begin_rf blank_ee True badcount_ee new_rf
     = (False, new_rf\<lparr>rf_initialized := True\<rparr>, badcount_ee)"
    by simp
  show ?thesis
    unfolding b c using len m1 m2(1) m3(1) a w by simp
qed

lemma findCardIndex_scan_absent:
  "findCardIndex_scan i cs u = - 1 \<longleftrightarrow> u \<notin> uid ` set cs"
  by (induction cs arbitrary: i) auto

lemma findCardIndex_absent: "findCardIndex s u = - 1 \<longleftrightarrow> u \<notin> uid ` set (whitelist s)"
  by (simp add: findCardIndex_def findCardIndex_scan_absent)

text \<open>
  Claim C8. \<^verbatim>\<open>addCard\<close> returns false and changes neither the manager (cards and
  count) nor the EEPROM image when the UID is among the whitelist's UIDs or the count has
  reached \<^const>\<open>MAX_RFID_CARDS\<close>; \<^verbatim>\<open>removeCard\<close> returns false and changes
  nothing when the UID is not among them.
\<close>

theorem addCard_removeCard_refuse:
  "(u \<in> uid ` set (whitelist s) \<or> rf_numCards s \<ge> int MAX_RFID_CARDS
      \<longrightarrow> addCard u owner level local commit ee s = (False, s, ee)) \<and>
   (v \<notin> uid ` set (whitelist s)
      \<longrightarrow> removeCard v local commit ee s = (False, s, ee))"
  by (simp add: addCard_def removeCard_def findCardIndex_absent Let_def)

theorem addCard_removeCard_refuse_witness:
  "''1A2B3C4D'' \<in> uid ` set (whitelist default_rf) \<and>
   rf_numCards default_rf < int MAX_RFID_CARDS \<and>
   addCard ''1A2B3C4D'' ''Guest'' 2 blank_ee True blank_ee default_rf
     = (False, default_rf, blank_ee) \<and>
   ''NEWCARD1'' \<notin> uid ` set (whitelist full_rf) \<and>
   rf_numCards full_rf \<ge> int MAX_RFID_CARDS \<and>
   addCard ''NEWCARD1'' ''Guest'' 2 blank_ee True blank_ee full_rf
     = (False, full_rf, blank_ee) \<and>
   ''DEADBEEF'' \<notin> uid ` set (whitelist default_rf) \<and>
   removeCard ''DEADBEEF'' blank_ee True blank_ee default_rf
     = (False, default_rf, blank_ee)"
proof -
  have p: "''1A2B3C4D'' \<in> uid ` set (whitelist default_rf)" by code_simp
  have n: "rf_numCards default_rf < int MAX_RFID_CARDS" by code_simp
  have q: "''NEWCARD1'' \<notin> uid ` set (whitelist full_rf)" by code_simp
  have f: "rf_numCards full_rf \<ge> int MAX_RFID_CARDS" by code_simp
  have r: "''DEADBEEF'' \<notin> uid ` set (whitelist default_rf)" by code_simp
  from addCard_removeCard_refuse
         [of "''1A2B3C4D''" default_rf "''Guest''" 2 blank_ee True blank_ee "''DEADBEEF''"]
       addCard_removeCard_refuse
         [of "''NEWCARD1''" full_rf "''Guest''" 2 blank_ee True blank_ee "''DEADBEEF''"]
       p n q f r
  show ?thesis by simp
qed

text \<open>A UID is authorised exactly when one of the records that carry it is active.\<close>

lemma isAuthorized_scan_iff:
  "fst (isAuthorized_scan cs u) \<longleftrightarrow> (\<exists>d\<in>set cs. uid d = u \<and> isActive d)"
  by (induction cs) auto

lemma isAuthorized_scan_inactive:
  assumes "distinct (map uid cs)" and "c \<in> set cs" and "\<not> isActive c"
  shows "\<not> fst (isAuthorized_scan cs (uid c))"
proof
  assume "fst (isAuthorized_scan cs (uid c))"
  then obtain d where d: "d \<in> set cs" "uid d = uid c" "isActive d"
    by (auto simp: isAuthorized_scan_iff)
  from assms(1) have "inj_on uid (set cs)" by (simp add: distinct_map)
  with d(1,2) assms(2) have "d = c" by (auto dest: inj_onD)
  with d(3) assms(3) show False by simp
qed

text \<open>
  Claim C10, as stated, fails for a whitelist that holds the same UID twice, since nothing
  makes the UIDs of a loaded snapshot distinct: started on a snapshot with a deactivated
  record of UID \<open>1A2B3C4D\<close> followed by an active one, \<^verbatim>\<open>begin\<close> succeeds, the
  whitelist holds a deactivated record with that UID, and \<^verbatim>\<open>isAuthorized\<close> returns
  true for it.
\<close>

theorem inactive_card_still_authorized:
  "fst (begin_rf blank_ee True duplicate_ee new_rf) \<and>
   DEFAULT_CARD_2\<lparr>isActive := False\<rparr> \<in> set (whitelist duplicate_rf) \<and>
   uid (DEFAULT_CARD_2\<lparr>isActive := False\<rparr>) = ''1A2B3C4D'' \<and>
   \<not> isActive (DEFAULT_CARD_2\<lparr>isActive := False\<rparr>) \<and>
   fst (isAuthorized duplicate_rf ''1A2B3C4D'')"
  by code_simp

text \<open>
  Claim C10, amended. When the whitelist holds a record with UID \<open>u\<close> whose active flag
  is false, \<^verbatim>\<open>addCard(u, ...)\<close> returns false and changes nothing, whatever the other
  records are: the deactivated card keeps its UID taken. \<^verbatim>\<open>isAuthorized(u)\<close> returns
  true exactly when some record with UID \<open>u\<close> is active; it therefore returns false when
  the UIDs of the whitelist are distinct, which the code does not enforce on a loaded
  snapshot.
\<close>

theorem inactive_card_blocks_uid:
  assumes "c \<in> set (whitelist s)" and "uid c = u" and "\<not> isActive c"
  shows "addCard u owner level local commit ee s = (False, s, ee) \<and>
         (fst (isAuthorized s u) \<longleftrightarrow> (\<exists>d\<in>set (whitelist s). uid d = u \<and> isActive d)) \<and>
         (distinct (map uid (whitelist s)) \<longrightarrow> \<not> fst (isAuthorized s u))"
proof -
  from assms(1,2) have "u \<in> uid ` set (whitelist s)" by auto
  then have "addCard u owner level local commit ee s = (False, s, ee)"
    by (simp add: addCard_def findCardIndex_absent)
  moreover have "fst (isAuthorized s u) \<longleftrightarrow> (\<exists>d\<in>set (whitelist s). uid d = u \<and> isActive d)"
    by (simp add: isAuthorized_def isAuthorized_scan_iff)
  moreover have "distinct (map uid (whitelist s)) \<longrightarrow> \<not> fst (isAuthorized s u)"
    using assms isAuthorized_scan_inactive [of "whitelist s" c]
    by (auto simp: isAuthorized_def)
  ultimately show ?thesis by simp
qed

theorem inactive_card_blocks_uid_witness:
  "DEFAULT_CARD_2\<lparr>isActive := False\<rparr> \<in> set (whitelist deactivated_rf) \<and>
   uid (DEFAULT_CARD_2\<lparr>isActive := False\<rparr>) = ''1A2B3C4D'' \<and>
   \<not> isActive (DEFAULT_CARD_2\<lparr>isActive := False\<rparr>) \<and>
   distinct (map uid (whitelist deactivated_rf)) \<and>
   addCard ''1A2B3C4D'' ''User1'' 0 blank_ee True deactivated_ee deactivated_rf
     = (False, deactivated_rf, deactivated_ee) \<and>
   \<not> fst (isAuthorized deactivated_rf ''1A2B3C4D'') \<and>
   DEFAULT_CARD_2\<lparr>isActive := False\<rparr> \<in> set (whitelist duplicate_rf) \<and>
   \<not> distinct (map uid (whitelist duplicate_rf)) \<and>
   addCard ''1A2B3C4D'' ''User1'' 0 blank_ee True duplicate_ee duplicate_rf
     = (False, duplicate_rf, duplicate_ee) \<and>
   fst (isAuthorized duplicate_rf ''1A2B3C4D'')"
proof -
  have m: "DEFAULT_CARD_2\<lparr>isActive := False\<rparr> \<in> set (whitelist deactivated_rf)" by code_simp
  have u: "uid (DEFAULT_CARD_2\<lparr>isActive := False\<rparr>) = ''1A2B3C4D''" by code_simp
  have i: "\<not> isActive (DEFAULT_CARD_2\<lparr>isActive := False\<rparr>)" by simp
  have d: "distinct (map uid (whitelist deactivated_rf))" by code_simp
  have m': "DEFAULT_CARD_2\<lparr>isActive := False\<rparr> \<in> set (whitelist duplicate_rf)" by code_simp
  have d': "\<not> distinct (map uid (whitelist duplicate_rf))" by code_simp
  have act: "DEFAULT_CARD_2 \<in> set (whitelist duplicate_rf)" by code_simp
  have act': "uid DEFAULT_CARD_2 = ''1A2B3C4D'' \<and> isActive DEFAULT_CARD_2" by code_simp
  from inactive_card_blocks_uid [OF m' u i, of "''User1''" 0 blank_ee True duplicate_ee]
       act act'
  have dup: "addCard ''1A2B3C4D'' ''User1'' 0 blank_ee True duplicate_ee duplicate_rf
       = (False, duplicate_rf, duplicate_ee) \<and>
     fst (isAuthorized duplicate_rf ''1A2B3C4D'')"
    by blast
  from inactive_card_blocks_uid [OF m u i, of "''User1''" 0 blank_ee True deactivated_ee] d
  have one: "addCard ''1A2B3C4D'' ''User1'' 0 blank_ee True deactivated_ee deactivated_rf
       = (False, deactivated_rf, deactivated_ee) \<and>
     \<not> fst (isAuthorized deactivated_rf ''1A2B3C4D'')"
    by blast
  from one dup m u i d m' d' show ?thesis by blast
qed

end
